theory Spec2Isabelle
  imports Complex_Main "HOL-Library.AList"
begin

section \<open>Numeric model\<close>

text \<open>
  The tensor entries of the noise schedule and of the sampler are modelled as mathematical
  reals: the statements about them are about exact real arithmetic, not about IEEE rounding.
  Where a statement depends on an effect of float arithmetic, the effect is modelled where it
  bites: the special values infinity and NaN in the tensors of the EMA update, the float32
  value of \<open>math.pi\<close> at the boundary of the schedule, and the finite range of a Python float
  in the EMA warmup. A one-dimensional tensor of the schedule is a list of reals; the schedule
  functions act elementwise, so each of them is given on one entry and applied to a tensor
  with \<open>map\<close>.
\<close>

text \<open>
  \<open>torch.atan2(y, x)\<close> on reals: the angle of the point \<open>(x, y)\<close> in \<open>(-pi, pi]\<close>,
  with \<open>atan2(0, 0) = 0\<close>. It is a library primitive of the source, written out quadrant by
  quadrant so that no division by zero is hidden in it.
\<close>

definition atan2 :: "real \<Rightarrow> real \<Rightarrow> real" where
  "atan2 y x =
     (if 0 < x then arctan (y / x)
      else if x < 0 then (if 0 \<le> y then arctan (y / x) + pi else arctan (y / x) - pi)
      else if 0 < y then pi / 2
      else if y < 0 then - (pi / 2)
      else 0)"

text \<open>
  \<open>torch.linspace(start, end, steps)\<close> for a non-negative number of points: \<open>steps\<close> evenly
  spaced values from \<open>start\<close> to \<open>end\<close> inclusive; one point is \<open>start\<close> alone.
\<close>

definition linspace :: "real \<Rightarrow> real \<Rightarrow> nat \<Rightarrow> real list" where
  "linspace start end steps =
     (if steps = 1 then [start]
      else map (\<lambda>i. start + real i * ((end - start) / real (steps - 1))) [0..<steps])"

section \<open>Utilities for the diffusion noise schedule\<close>

definition get_alphas_sigmas :: "real \<Rightarrow> real \<times> real" where
  "get_alphas_sigmas t = (cos (t * pi / 2), sin (t * pi / 2))"

definition t_to_alpha_sigma :: "real \<Rightarrow> real \<times> real" where
  "t_to_alpha_sigma t = (cos (t * pi / 2), sin (t * pi / 2))"

definition alpha_sigma_to_t :: "real \<Rightarrow> real \<Rightarrow> real" where
  "alpha_sigma_to_t alpha sigma = atan2 sigma alpha / pi * 2"

text \<open>
  The source computes \<open>alpha = (1 - sigma ** 2) ** 0.5\<close>. Its argument lies in \<open>[0, 1]\<close>
  (lemma \<open>crash_radicand_bounds\<close>), where the power \<open>0.5\<close> is the square root.
\<close>

definition get_crash_schedule :: "real \<Rightarrow> real" where
  "get_crash_schedule t =
     (let sigma = (sin (t * pi / 2)) ^ 2;
          alpha = sqrt (1 - sigma ^ 2)
      in alpha_sigma_to_t alpha sigma)"


text \<open>
  The body of \<open>get_alphas_sigmas\<close> with the value of \<open>math.pi\<close> as a parameter:
  \<open>get_alphas_sigmas\<close> is the instance at pi, and the instance at \<open>math_pi_float32\<close> gives, at
  \<open>t = 1\<close>, the cosine and the sine that the float32 program rounds to its results.
\<close>

definition get_alphas_sigmas_at :: "real \<Rightarrow> real \<Rightarrow> real \<times> real" where
  "get_alphas_sigmas_at math_pi t = (cos (t * math_pi / 2), sin (t * math_pi / 2))"

section \<open>Errors\<close>

text \<open>
  Every exception the modelled code can raise is a value. \<open>RuntimeError\<close> is what
  \<open>torch.linspace\<close> raises for a negative number of points; \<open>TypeError\<close> is what comparing a
  complex number raises (a Python float power with a negative base and a fractional exponent
  is complex); \<open>OverflowError\<close> is what Python raises when an integer is too large to become
  a float and when a float power leaves the finite range.
\<close>

datatype error =
    AssertionError
  | KeyError
  | IndexError
  | ZeroDivisionError
  | TypeError
  | RuntimeError
  | UnboundLocalError
  | OverflowError

section \<open>Utilities for training: exponential moving average\<close>

text \<open>
  A tensor entry of a parameter or a buffer is a finite number or one of the IEEE special
  values. Arithmetic on finite entries is exact (no rounding, no overflow, the two zeros
  identified); on the special values it is as IEEE 754 has it: zero times an infinity and the
  sum of opposite infinities are NaN, and NaN propagates.
\<close>

datatype fnum = Fin real | PInf | NInf | NaN

text \<open>An entry times a finite Python float, and the sum of two entries.\<close>

fun fmul :: "fnum \<Rightarrow> real \<Rightarrow> fnum" where
  "fmul (Fin r) c = Fin (r * c)"
| "fmul PInf c = (if 0 < c then PInf else if c < 0 then NInf else NaN)"
| "fmul NInf c = (if 0 < c then NInf else if c < 0 then PInf else NaN)"
| "fmul NaN c = NaN"

fun fadd :: "fnum \<Rightarrow> fnum \<Rightarrow> fnum" where
  "fadd (Fin a) (Fin b) = Fin (a + b)"
| "fadd NaN y = NaN"
| "fadd x NaN = NaN"
| "fadd PInf NInf = NaN"
| "fadd NInf PInf = NaN"
| "fadd PInf y = PInf"
| "fadd x PInf = PInf"
| "fadd NInf y = NInf"
| "fadd x NInf = NInf"

text \<open>
  A tensor is the family of its entries, indexed by position. The tensors registered under
  one name in the live model and in its deep-copied shadow have one index set (one shape), and
  they are distinct objects, so that mutating a shadow tensor in place is an update of the
  shadow's entry alone. A module exposes its named parameters and its named buffers, in
  registration order.
\<close>

definition finite_tensor :: "('i \<Rightarrow> fnum) \<Rightarrow> bool" where
  "finite_tensor a = (\<forall>i. \<exists>r. a i = Fin r)"

record 'a module =
  named_parameters :: "(string \<times> 'a) list"
  named_buffers :: "(string \<times> 'a) list"

text \<open>
  Python's \<open>dict(pairs)\<close>: pairs are inserted in order, a repeated key keeps its place and
  takes the later value. \<open>keys\<close> is the key view, which compares as a set; \<open>items\<close> iterates
  in insertion order.
\<close>

definition dict :: "('k \<times> 'v) list \<Rightarrow> ('k \<times> 'v) list" where
  "dict pairs = fold (\<lambda>(k, v) d. AList.update k v d) pairs []"

definition keys :: "('k \<times> 'v) list \<Rightarrow> 'k set" where
  "keys d = set (map fst d)"

definition items :: "('k \<times> 'v) list \<Rightarrow> ('k \<times> 'v) list" where
  "items d = d"

text \<open>
  The in-place tensor operations \<open>a.mul_(c)\<close>, \<open>a.add_(p, alpha=c)\<close> (which adds \<open>c * p\<close>) and
  \<open>a.copy_(b)\<close>, entry by entry.
\<close>

definition mul_inplace :: "('i \<Rightarrow> fnum) \<Rightarrow> real \<Rightarrow> ('i \<Rightarrow> fnum)" where
  "mul_inplace a c = (\<lambda>i. fmul (a i) c)"

definition add_inplace :: "('i \<Rightarrow> fnum) \<Rightarrow> ('i \<Rightarrow> fnum) \<Rightarrow> real \<Rightarrow> ('i \<Rightarrow> fnum)" where
  "add_inplace a p alpha = (\<lambda>i. fadd (a i) (fmul (p i) alpha))"

definition copy_inplace :: "'a \<Rightarrow> 'a \<Rightarrow> 'a" where
  "copy_inplace a b = b"

text \<open>
  The first loop of \<open>ema_update\<close>: for every item of the model's parameters, the shadow tensor
  of that name is scaled by \<open>decay\<close> and the model's tensor is added with weight
  \<open>1 - decay\<close>. A missing name would raise \<open>KeyError\<close> at the subscript.
\<close>

fun blend_loop ::
  "(string \<times> ('i \<Rightarrow> fnum)) list \<Rightarrow> real \<Rightarrow> (string \<times> ('i \<Rightarrow> fnum)) list
     \<Rightarrow> error option \<times> (string \<times> ('i \<Rightarrow> fnum)) list" where
  "blend_loop [] decay averaged_params = (None, averaged_params)"
| "blend_loop ((name, param) # rest) decay averaged_params =
     (case map_of averaged_params name of
        None \<Rightarrow> (Some KeyError, averaged_params)
      | Some a \<Rightarrow>
          blend_loop rest decay
            (AList.update name (add_inplace (mul_inplace a decay) param (1 - decay)) averaged_params))"

text \<open>The second loop: every shadow buffer receives a copy of the model's buffer.\<close>

fun copy_loop ::
  "(string \<times> 'a) list \<Rightarrow> (string \<times> 'a) list \<Rightarrow> error option \<times> (string \<times> 'a) list" where
  "copy_loop [] averaged_buffers = (None, averaged_buffers)"
| "copy_loop ((name, buf) # rest) averaged_buffers =
     (case map_of averaged_buffers name of
        None \<Rightarrow> (Some KeyError, averaged_buffers)
      | Some a \<Rightarrow> copy_loop rest (AList.update name (copy_inplace a buf) averaged_buffers))"

text \<open>
  \<open>ema_update\<close> returns the exception it raised, if any, together with the state in which it
  leaves the shadow model. Assertions are enabled.
\<close>

definition ema_update ::
  "('i \<Rightarrow> fnum) module \<Rightarrow> ('i \<Rightarrow> fnum) module \<Rightarrow> real
     \<Rightarrow> error option \<times> ('i \<Rightarrow> fnum) module" where
  "ema_update model averaged_model decay =
     (let model_params = dict (named_parameters model);
          averaged_params = dict (named_parameters averaged_model)
      in if keys model_params \<noteq> keys averaged_params
         then (Some AssertionError, averaged_model)
         else
           (case blend_loop (items model_params) decay averaged_params of
              (Some e, averaged_params') \<Rightarrow>
                (Some e, averaged_model\<lparr>named_parameters := averaged_params'\<rparr>)
            | (None, averaged_params') \<Rightarrow>
                (let averaged_model' = averaged_model\<lparr>named_parameters := averaged_params'\<rparr>;
                     model_buffers = dict (named_buffers model);
                     averaged_buffers = dict (named_buffers averaged_model)
                 in if keys model_buffers \<noteq> keys averaged_buffers
                    then (Some AssertionError, averaged_model')
                    else
                      (case copy_loop (items model_buffers) averaged_buffers of
                         (e, averaged_buffers') \<Rightarrow>
                           (e, averaged_model'\<lparr>named_buffers := averaged_buffers'\<rparr>)))))"

section \<open>Utilities for training: EMA warmup\<close>

record EMAWarmup =
  inv_gamma :: real
  power' :: real
  min_value :: real
  max_value :: real
  start_at :: int
  last_epoch :: int

text \<open>
  The fields \<open>inv_gamma\<close>, \<open>power\<close>, \<open>min_value\<close> and \<open>max_value\<close> are finite Python floats,
  \<open>start_at\<close> and \<open>last_epoch\<close> are Python integers. Finite float arithmetic is exact here; a
  number of magnitude \<open>float_limit\<close> or more rounds out of the finite range of a float.
\<close>

definition float_limit :: real where
  "float_limit = 2 ^ 1024 - 2 ^ 970"

text \<open>The conversion of an integer to a float, which the division \<open>epoch / inv_gamma\<close> starts with.\<close>

definition py_float_of_int :: "int \<Rightarrow> error + real" where
  "py_float_of_int n =
     (if float_limit \<le> \<bar>of_int n\<bar> then Inl OverflowError else Inr (of_int n))"

text \<open>
  Python's true division of floats raises on a zero divisor. A quotient beyond the finite range
  is an infinity, not an exception; \<open>get_value\<close> treats that case where it uses the quotient.
\<close>

definition py_truediv :: "real \<Rightarrow> real \<Rightarrow> error + real" where
  "py_truediv a b = (if b = 0 then Inl ZeroDivisionError else Inr (a / b))"

text \<open>
  Python's float power \<open>b ** e\<close> for a finite base. A positive base gives the real power. Base
  zero raises for a negative exponent. A negative base gives a real number only for an
  integer-valued exponent; otherwise the result is complex, and the comparisons that
  \<open>get_value\<close> makes next raise \<open>TypeError\<close>. A result beyond the finite range raises
  \<open>OverflowError\<close>.
\<close>

definition py_pow :: "real \<Rightarrow> real \<Rightarrow> error + real" where
  "py_pow b e =
     (if 0 < b then
        (if float_limit \<le> b powr e then Inl OverflowError else Inr (b powr e))
      else if b = 0 then
        (if e < 0 then Inl ZeroDivisionError else if e = 0 then Inr 1 else Inr 0)
      else if float_limit \<le> (- b) powr e then Inl OverflowError
      else if e = of_int \<lfloor>e\<rfloor> then
        Inr (if even \<lfloor>e\<rfloor> then (- b) powr e else - ((- b) powr e))
      else Inl TypeError)"

text \<open>
  \<open>get_value\<close>. When the quotient \<open>epoch / inv_gamma\<close> is an infinity, so is the base
  \<open>1 + epoch / inv_gamma\<close>, and Python's power of an infinite base raises nothing: it is 1 for
  the exponent zero, 0 for a negative exponent, and for a positive exponent an infinity, which
  is negative only for a negative base and an odd integer exponent. Then \<open>value\<close> is an
  infinity of the opposite sign, and \<open>max\<close> and \<open>min\<close> return \<open>min_value\<close> clamped by
  \<open>max_value\<close> for minus infinity and \<open>max_value\<close> for plus infinity.
\<close>

definition get_value :: "EMAWarmup \<Rightarrow> error + real" where
  "get_value self =
     (let epoch = max 0 (last_epoch self - start_at self)
      in case py_float_of_int epoch of
           Inl e \<Rightarrow> Inl e
         | Inr f \<Rightarrow>
             (case py_truediv f (inv_gamma self) of
                Inl e \<Rightarrow> Inl e
              | Inr q \<Rightarrow>
                  if float_limit \<le> \<bar>q\<bar> then
                    Inr (if epoch < 0 then 0
                         else if - power' self = 0 then
                           min (max_value self) (max (min_value self) (1 - 1))
                         else if - power' self < 0 then
                           min (max_value self) (max (min_value self) (1 - 0))
                         else if q < 0 \<and> - power' self = of_int \<lfloor>- power' self\<rfloor>
                                 \<and> odd \<lfloor>- power' self\<rfloor> then
                           max_value self
                         else min (max_value self) (min_value self))
                  else
                    (case py_pow (1 + q) (- power' self) of
                       Inl e \<Rightarrow> Inl e
                     | Inr p \<Rightarrow>
                         (let value = 1 - p
                          in Inr (if epoch < 0 then 0
                                  else min (max_value self) (max (min_value self) value))))))"

definition step :: "EMAWarmup \<Rightarrow> EMAWarmup" where
  "step self = self\<lparr>last_epoch := last_epoch self + 1\<rparr>"

section \<open>The sampler\<close>

text \<open>
  A sample tensor is a batch: the list of its batch elements, each flattened to a list of
  reals, so that \<open>x.shape[0]\<close> is the length of the outer list. Arithmetic between tensors is
  elementwise on tensors of one shape (the model returns a tensor of the shape of its input).
\<close>

type_synonym tensor = "real list list"

definition tscale :: "tensor \<Rightarrow> real \<Rightarrow> tensor" where
  "tscale x c = map (map (\<lambda>v. v * c)) x"

definition tadd :: "tensor \<Rightarrow> tensor \<Rightarrow> tensor" where
  "tadd x y = map2 (map2 (+)) x y"

definition tsub :: "tensor \<Rightarrow> tensor \<Rightarrow> tensor" where
  "tsub x y = map2 (map2 (-)) x y"

text \<open>
  The model is a callable that may carry state of its own (the buffers of a network, a record
  of its calls): applied to its state, the tensor and the vector of timesteps it returns the
  predicted velocity and its next state. The only way the loop changes the state of the model
  is to call it.

  The state of the sampling loop: the current \<open>x\<close>, the local \<open>pred\<close> (unbound before the first
  iteration), the state of the model, the state of the random source, and a counter of the
  draws from the random source.
\<close>

record ('m, 'g) sampler_state =
  st_x :: tensor
  st_pred :: "tensor option"
  st_model :: 'm
  st_rng :: 'g
  draws :: nat

text \<open>
  The working schedule of \<open>sample\<close>: \<open>get_crash_schedule(torch.linspace(1, 0, steps + 1)[:-1])\<close>,
  and the two tensors \<open>get_alphas_sigmas\<close> returns for it.
\<close>

definition sample_schedule :: "int \<Rightarrow> real list" where
  "sample_schedule steps =
     map get_crash_schedule (butlast (linspace 1 0 (nat (steps + 1))))"

definition sample_alphas :: "int \<Rightarrow> real list" where
  "sample_alphas steps = map (\<lambda>t. fst (get_alphas_sigmas t)) (sample_schedule steps)"

definition sample_sigmas :: "int \<Rightarrow> real list" where
  "sample_sigmas steps = map (\<lambda>t. snd (get_alphas_sigmas t)) (sample_schedule steps)"

text \<open>
  One iteration of the sampling loop. The model takes its state, the tensor and the vector
  \<open>ts * t[i]\<close>; \<open>randn_like\<close> takes the state of the random source and a tensor, and returns noise of that
  tensor's shape with the next state. The indices \<open>i\<close> and \<open>i + 1\<close> are in range, since the
  schedule has \<open>steps\<close> entries (lemma \<open>length_sample_schedule\<close>). The quotient by
  \<open>sigmas[i] ** 2\<close> is the division that must not meet zero. For \<open>eta\<close> outside the
  interval from 0 to 1 a radicand can be negative, where \<open>torch\<close> yields NaN and \<open>sqrt\<close> here
  a negative number; no statement below depends on such a value.
\<close>

definition sample_step ::
  "('m \<Rightarrow> tensor \<Rightarrow> real list \<Rightarrow> tensor \<times> 'm) \<Rightarrow> ('g \<Rightarrow> tensor \<Rightarrow> tensor \<times> 'g) \<Rightarrow> real list
     \<Rightarrow> int \<Rightarrow> real \<Rightarrow> real list \<Rightarrow> real list \<Rightarrow> real list \<Rightarrow> nat
     \<Rightarrow> ('m, 'g) sampler_state \<Rightarrow> ('m, 'g) sampler_state" where
  "sample_step model randn_like ts steps eta t alphas sigmas i st =
     (let (v, m) = model (st_model st) (st_x st) (map (\<lambda>one. one * (t ! i)) ts);
          pred' = tsub (tscale (st_x st) (alphas ! i)) (tscale v (sigmas ! i));
          eps = tadd (tscale (st_x st) (sigmas ! i)) (tscale v (alphas ! i));
          st' = st\<lparr>st_pred := Some pred', st_model := m\<rparr>
      in if int i < steps - 1 then
           (let ddim_sigma =
                  eta * sqrt ((sigmas ! (i + 1)) ^ 2 / (sigmas ! i) ^ 2)
                      * sqrt (1 - (alphas ! i) ^ 2 / (alphas ! (i + 1)) ^ 2);
                adjusted_sigma = sqrt ((sigmas ! (i + 1)) ^ 2 - ddim_sigma ^ 2);
                x' = tadd (tscale pred' (alphas ! (i + 1))) (tscale eps adjusted_sigma)
            in if eta \<noteq> 0 then
                 (case randn_like (st_rng st') x' of
                    (noise, g) \<Rightarrow>
                      st'\<lparr>st_x := tadd x' (tscale noise ddim_sigma), st_rng := g,
                          draws := draws st' + 1\<rparr>)
               else st'\<lparr>st_x := x'\<rparr>)
         else st')"

text \<open>
  \<open>sample\<close> takes the initial states of the model and of the random source, and returns \<open>pred\<close>
  together with the final loop state. With no iteration \<open>pred\<close> was never bound and the
  \<open>return\<close> raises.
\<close>

definition sample ::
  "('m \<Rightarrow> tensor \<Rightarrow> real list \<Rightarrow> tensor \<times> 'm) \<Rightarrow> ('g \<Rightarrow> tensor \<Rightarrow> tensor \<times> 'g) \<Rightarrow> tensor
     \<Rightarrow> int \<Rightarrow> real \<Rightarrow> 'm \<Rightarrow> 'g \<Rightarrow> error + tensor \<times> ('m, 'g) sampler_state" where
  "sample model randn_like x0 steps eta m0 g =
     (if steps + 1 < 0 then Inl RuntimeError
      else
        (let ts = replicate (length x0) 1;
             t = sample_schedule steps;
             alphas = sample_alphas steps;
             sigmas = sample_sigmas steps;
             st = fold (sample_step model randn_like ts steps eta t alphas sigmas)
                    [0..<nat steps]
                    \<lparr>st_x = x0, st_pred = None, st_model = m0, st_rng = g, draws = 0\<rparr>
         in case st_pred st of
              None \<Rightarrow> Inl UnboundLocalError
            | Some p \<Rightarrow> Inr (p, st)))"

section \<open>Style transfer\<close>

text \<open>
  The schedule of \<open>do_style_transfer\<close> before it is flipped: the crash schedule of
  \<open>torch.linspace(0, 1, steps + 1)\<close>, restricted to the entries below \<open>noise_level\<close>.
\<close>

definition style_step_list :: "int \<Rightarrow> real \<Rightarrow> real list" where
  "style_step_list steps noise_level =
     filter (\<lambda>s. s < noise_level)
       (map get_crash_schedule (linspace 0 1 (nat (steps + 1))))"

text \<open>
  \<open>sampling.sample\<close> belongs to an external package; it is a parameter here and receives the
  model, the noised input, the timesteps \<open>step_list.flip(0)[:-1]\<close>, \<open>eta\<close> and the state of the
  random source (the device and the empty dictionary of extra arguments are left out).
  \<open>torch.randn(audio_sample.shape)\<close> is a draw of the shape of \<open>audio_sample\<close>.
  \<open>step_list[-1]\<close> raises on an empty list.
\<close>

definition do_style_transfer ::
  "('m \<Rightarrow> tensor \<Rightarrow> real list \<Rightarrow> real \<Rightarrow> 'g \<Rightarrow> 'r) \<Rightarrow> 'm \<Rightarrow> ('g \<Rightarrow> tensor \<Rightarrow> tensor \<times> 'g)
     \<Rightarrow> tensor \<Rightarrow> int \<Rightarrow> real \<Rightarrow> real \<Rightarrow> 'g \<Rightarrow> error + 'r" where
  "do_style_transfer sampling_sample model randn_like audio_sample steps noise_level eta g =
     (if steps + 1 < 0 then Inl RuntimeError
      else
        (let step_list = style_step_list steps noise_level
         in if step_list = [] then Inl IndexError
            else
              (case t_to_alpha_sigma (last step_list) of
                 (alpha, sigma) \<Rightarrow>
                   (case randn_like g audio_sample of
                      (noised, g') \<Rightarrow>
                        (let noised' = tadd (tscale audio_sample alpha) (tscale noised sigma);
                             noise = noised'
                         in Inr (sampling_sample model noise (butlast (rev step_list))
                                   eta g'))))))"

section \<open>Facts about the noise schedule\<close>

lemma sin_sq_unit: "0 \<le> (sin (x::real)) ^ 2 \<and> (sin x) ^ 2 \<le> 1"
  by (simp add: abs_square_le_1)

lemma crash_radicand_bounds:
  fixes x :: real
  defines "sigma \<equiv> (sin x) ^ 2"
  shows "0 \<le> 1 - sigma ^ 2 \<and> 1 - sigma ^ 2 \<le> 1"
proof -
  have "0 \<le> sigma" "sigma \<le> 1"
    using sin_sq_unit [of x] by (simp_all add: sigma_def)
  then have "sigma ^ 2 \<le> 1"
    by (rule power_le_one)
  then show ?thesis by simp
qed

lemma atan2_unit_circle:
  assumes "0 \<le> s" "s \<le> 1"
  shows "atan2 s (sqrt (1 - s ^ 2)) = arcsin s"
proof (cases "s = 1")
  case True
  then show ?thesis by (simp add: atan2_def)
next
  case False
  with assms have s1: "s < 1" by simp
  have abs: "\<bar>s\<bar> < 1" using assms s1 by simp
  then have sq: "s ^ 2 < 1"
    by (simp add: abs_square_less_1)
  then have pos: "0 < sqrt (1 - s ^ 2)" by simp
  let ?a = "arcsin s"
  have lo: "- (pi / 2) < ?a" and hi: "?a < pi / 2"
    using arcsin_bounded [of s] abs arcsin_lt_bounded [of s] by auto
  have sin_a: "sin ?a = s" using abs by simp
  have cos_a: "cos ?a = sqrt (1 - s ^ 2)"
    using abs by (simp add: cos_arcsin)
  have "tan ?a = s / sqrt (1 - s ^ 2)"
    by (simp add: tan_def sin_a cos_a)
  then have "arctan (s / sqrt (1 - s ^ 2)) = ?a"
    using arctan_tan [OF lo hi] by simp
  with pos show ?thesis by (simp add: atan2_def)
qed

lemma crash_as_arcsin:
  "get_crash_schedule t = arcsin ((sin (t * pi / 2)) ^ 2) / pi * 2"
proof -
  have "atan2 ((sin (t * pi / 2)) ^ 2) (sqrt (1 - ((sin (t * pi / 2)) ^ 2) ^ 2))
          = arcsin ((sin (t * pi / 2)) ^ 2)"
    using sin_sq_unit [of "t * pi / 2"] by (intro atan2_unit_circle) auto
  then show ?thesis
    unfolding get_crash_schedule_def alpha_sigma_to_t_def Let_def by (rule arg_cong)
qed

lemma sin_quarter_strict_mono:
  assumes "0 \<le> s" "s < t" "t \<le> 1"
  shows "sin (s * pi / 2) < sin (t * pi / 2)"
proof -
  have "s * pi / 2 < t * pi / 2" using assms by simp
  moreover have "0 \<le> s * pi" using assms by simp
  then have "- (pi / 2) \<le> s * pi / 2" using pi_gt_zero by linarith
  moreover have "t * pi / 2 \<le> pi / 2" using assms by simp
  ultimately show ?thesis by (intro sin_monotone_2pi)
qed

lemma sin_quarter_nonneg:
  assumes "0 \<le> t" "t \<le> 1"
  shows "0 \<le> sin (t * pi / 2)"
proof -
  have "0 \<le> t * pi" "t * pi \<le> 1 * pi"
    using assms by (simp_all del: mult_1)
  then have "0 \<le> t * pi / 2" "t * pi / 2 \<le> pi"
    using pi_gt_zero by simp_all
  then show ?thesis by (rule sin_ge_zero)
qed

lemma crash_strict_mono:
  assumes "0 \<le> s" "s < t" "t \<le> 1"
  shows "get_crash_schedule s < get_crash_schedule t"
proof -
  let ?u = "sin (s * pi / 2)" and ?v = "sin (t * pi / 2)"
  have uv: "?u < ?v" using assms by (rule sin_quarter_strict_mono)
  have u0: "0 \<le> ?u" using assms by (intro sin_quarter_nonneg) auto
  have "?u ^ 2 < ?v ^ 2" using uv u0 by (simp add: power_strict_mono)
  moreover have "\<bar>?u ^ 2\<bar> \<le> 1" "\<bar>?v ^ 2\<bar> \<le> 1"
    by (simp_all add: abs_square_le_1)
  ultimately have "arcsin (?u ^ 2) < arcsin (?v ^ 2)"
    by (simp add: arcsin_less_mono)
  then show ?thesis
    by (simp add: crash_as_arcsin divide_strict_right_mono)
qed

lemma crash_at_zero: "get_crash_schedule 0 = 0"
  by (simp add: crash_as_arcsin)

lemma crash_at_one: "get_crash_schedule 1 = 1"
  by (simp add: crash_as_arcsin)

lemma cos_quarter_pos:
  assumes "0 \<le> t" "t < 1"
  shows "0 < cos (t * pi / 2)"
proof -
  have "0 \<le> t * pi" "t * pi < 1 * pi"
    using assms by (simp_all del: mult_1)
  then have "- (pi / 2) < t * pi / 2" "t * pi / 2 < pi / 2"
    using pi_gt_zero by linarith+
  then show ?thesis by (rule cos_gt_zero_pi)
qed

section \<open>Round trip and boundary values of the schedule\<close>

text \<open>
  Claim C7. For every \<open>t\<close> strictly between 0 and 1, \<open>alpha_sigma_to_t\<close> applied to the pair
  that \<open>get_alphas_sigmas t\<close> returns gives back exactly \<open>t\<close>.
\<close>

theorem alpha_sigma_round_trip:
  assumes "0 < t" "t < 1"
  shows "(case get_alphas_sigmas t of (alpha, sigma) \<Rightarrow> alpha_sigma_to_t alpha sigma) = t"
proof -
  let ?a = "t * pi / 2"
  have c: "0 < cos ?a" using assms by (intro cos_quarter_pos) auto
  have "0 < t * pi" "t * pi < 1 * pi"
    using assms by (simp_all del: mult_1)
  then have "- (pi / 2) < ?a" "?a < pi / 2"
    using pi_gt_zero by linarith+
  then have "arctan (tan ?a) = ?a" by (rule arctan_tan)
  then have "atan2 (sin ?a) (cos ?a) = ?a"
    using c by (simp add: atan2_def tan_def)
  then show ?thesis
    by (simp add: get_alphas_sigmas_def alpha_sigma_to_t_def)
qed

theorem alpha_sigma_round_trip_witness:
  "(0::real) < 1 / 2 \<and> (1::real) / 2 < 1 \<and>
   (case get_alphas_sigmas (1 / 2) of (alpha, sigma) \<Rightarrow> alpha_sigma_to_t alpha sigma) = 1 / 2"
  using alpha_sigma_round_trip [of "1 / 2"] by simp


text \<open>
  At the argument of the float32 program for \<open>t = 1\<close> the cosine is a small negative number.
\<close>

lemma get_alphas_sigmas_at_pi: "get_alphas_sigmas_at pi t = get_alphas_sigmas t"
  by (simp add: get_alphas_sigmas_at_def get_alphas_sigmas_def)





section \<open>Facts about dictionaries and the two loops of the EMA update\<close>

lemma fold_update_keys:
  "fst ` set (fold (\<lambda>(k, v) d. AList.update k v d) pairs acc) = fst ` set pairs \<union> fst ` set acc"
  by (induction pairs arbitrary: acc) (auto simp: dom_update split: prod.splits)

lemma keys_dict: "keys (dict pairs) = fst ` set pairs"
  by (simp add: keys_def dict_def fold_update_keys)

lemma fold_update_distinct:
  "distinct (map fst acc) \<Longrightarrow>
   distinct (map fst (fold (\<lambda>(k, v) d. AList.update k v d) pairs acc))"
  by (induction pairs arbitrary: acc) (auto simp: distinct_update split: prod.splits)

lemma distinct_dict: "distinct (map fst (dict pairs))"
  by (simp add: dict_def fold_update_distinct)

lemma update_fresh: "k \<notin> fst ` set al \<Longrightarrow> AList.update k v al = al @ [(k, v)]"
  by (induction al) auto

lemma fold_update_fresh:
  "distinct (map fst (acc @ pairs)) \<Longrightarrow>
   fold (\<lambda>(k, v) d. AList.update k v d) pairs acc = acc @ pairs"
proof (induction pairs arbitrary: acc)
  case Nil
  then show ?case by simp
next
  case (Cons p pairs)
  obtain k v where p: "p = (k, v)" by (cases p)
  from Cons.prems p have fresh: "k \<notin> fst ` set acc" by auto
  from Cons.prems p have "distinct (map fst ((acc @ [(k, v)]) @ pairs))" by simp
  then have "fold (\<lambda>(k, v) d. AList.update k v d) pairs (acc @ [(k, v)]) = (acc @ [(k, v)]) @ pairs"
    by (rule Cons.IH)
  with fresh p show ?case by (simp add: update_fresh)
qed

lemma dict_distinct: "distinct (map fst pairs) \<Longrightarrow> dict pairs = pairs"
  using fold_update_fresh [of "[]" pairs] by (simp add: dict_def)

lemma dict_idem: "dict (dict pairs) = dict pairs"
  by (rule dict_distinct) (rule distinct_dict)


lemma blend_loop_spec:
  assumes "distinct (map fst its)" "fst ` set its \<subseteq> fst ` set avg"
  shows "\<exists>avg'. blend_loop its decay avg = (None, avg') \<and>
           map fst avg' = map fst avg \<and>
           (\<forall>n. map_of avg' n =
              (case map_of its n of
                 None \<Rightarrow> map_of avg n
               | Some p \<Rightarrow> map_option (\<lambda>a. add_inplace (mul_inplace a decay) p (1 - decay)) (map_of avg n)))"
  using assms
proof (induction its arbitrary: avg)
  case Nil
  then show ?case by simp
next
  case (Cons it its)
  obtain name param where it: "it = (name, param)" by (cases it)
  from Cons.prems it have "name \<in> fst ` set avg" by simp
  then obtain a where a: "map_of avg name = Some a"
    by (metis domD dom_map_of_conv_image_fst)
  let ?avg1 = "AList.update name (add_inplace (mul_inplace a decay) param (1 - decay)) avg"
  have keys1: "map fst ?avg1 = map fst avg"
    using \<open>name \<in> fst ` set avg\<close> by (simp add: update_keys)
  from Cons.prems it have d: "distinct (map fst its)" and fresh: "name \<notin> fst ` set its"
    by auto
  have sub: "fst ` set its \<subseteq> fst ` set ?avg1"
    using Cons.prems keys1 by (metis (no_types, lifting) list.set_map set_subset_Cons subset_trans image_mono)
  from Cons.IH [OF d sub] obtain avg' where
    run: "blend_loop its decay ?avg1 = (None, avg')" and
    k: "map fst avg' = map fst ?avg1" and
    v: "\<forall>n. map_of avg' n =
              (case map_of its n of
                 None \<Rightarrow> map_of ?avg1 n
               | Some p \<Rightarrow> map_option (\<lambda>a. add_inplace (mul_inplace a decay) p (1 - decay)) (map_of ?avg1 n))"
    by blast
  have none: "map_of its name = None"
    using fresh by (simp add: map_of_eq_None_iff)
  have "blend_loop (it # its) decay avg = (None, avg')"
    using it a run by simp
  moreover have "map fst avg' = map fst avg" using k keys1 by simp
  moreover have "\<forall>n. map_of avg' n =
              (case map_of (it # its) n of
                 None \<Rightarrow> map_of avg n
               | Some p \<Rightarrow> map_option (\<lambda>a. add_inplace (mul_inplace a decay) p (1 - decay)) (map_of avg n))"
    using v it a none by (auto simp: update_conv' split: option.splits)
  ultimately show ?case by blast
qed

lemma copy_loop_spec:
  assumes "distinct (map fst its)" "fst ` set its \<subseteq> fst ` set avg"
  shows "\<exists>avg'. copy_loop its avg = (None, avg') \<and>
           map fst avg' = map fst avg \<and>
           (\<forall>n. map_of avg' n =
              (case map_of its n of
                 None \<Rightarrow> map_of avg n
               | Some b \<Rightarrow> map_option (\<lambda>a. copy_inplace a b) (map_of avg n)))"
  using assms
proof (induction its arbitrary: avg)
  case Nil
  then show ?case by simp
next
  case (Cons it its)
  obtain name buf where it: "it = (name, buf)" by (cases it)
  from Cons.prems it have mem: "name \<in> fst ` set avg" by simp
  then obtain a where a: "map_of avg name = Some a"
    by (metis domD dom_map_of_conv_image_fst)
  let ?avg1 = "AList.update name (copy_inplace a buf) avg"
  have keys1: "map fst ?avg1 = map fst avg"
    using mem by (simp add: update_keys)
  from Cons.prems it have d: "distinct (map fst its)" and fresh: "name \<notin> fst ` set its"
    by auto
  have "fst ` set ?avg1 = fst ` set avg"
    using mem by (auto simp: dom_update)
  with Cons.prems have sub: "fst ` set its \<subseteq> fst ` set ?avg1" by auto
  from Cons.IH [OF d sub] obtain avg' where
    run: "copy_loop its ?avg1 = (None, avg')" and
    k: "map fst avg' = map fst ?avg1" and
    v: "\<forall>n. map_of avg' n =
              (case map_of its n of
                 None \<Rightarrow> map_of ?avg1 n
               | Some b \<Rightarrow> map_option (\<lambda>a. copy_inplace a b) (map_of ?avg1 n))"
    by blast
  have none: "map_of its name = None"
    using fresh by (simp add: map_of_eq_None_iff)
  have "copy_loop (it # its) avg = (None, avg')"
    using it a run by simp
  moreover have "map fst avg' = map fst avg" using k keys1 by simp
  moreover have "\<forall>n. map_of avg' n =
              (case map_of (it # its) n of
                 None \<Rightarrow> map_of avg n
               | Some b \<Rightarrow> map_option (\<lambda>a. copy_inplace a b) (map_of avg n))"
    using v it a none by (auto simp: update_conv' split: option.splits)
  ultimately show ?case by blast
qed

lemma blend_dict:
  assumes "fst ` set mp = fst ` set ap"
  shows "\<exists>ap'. blend_loop (items (dict mp)) decay (dict ap) = (None, ap') \<and>
           map fst ap' = map fst (dict ap) \<and>
           (\<forall>n. map_of ap' n =
              (case map_of (dict mp) n of
                 None \<Rightarrow> map_of (dict ap) n
               | Some p \<Rightarrow> map_option (\<lambda>a. add_inplace (mul_inplace a decay) p (1 - decay))
                             (map_of (dict ap) n)))"
proof -
  have "fst ` set (dict mp) \<subseteq> fst ` set (dict ap)"
    using assms keys_dict [of mp] keys_dict [of ap] by (simp add: keys_def)
  then show ?thesis
    unfolding items_def by (intro blend_loop_spec distinct_dict)
qed

lemma copy_dict:
  assumes "fst ` set mb = fst ` set ab"
  shows "\<exists>ab'. copy_loop (items (dict mb)) (dict ab) = (None, ab') \<and>
           map fst ab' = map fst (dict ab) \<and>
           (\<forall>n. map_of ab' n =
              (case map_of (dict mb) n of
                 None \<Rightarrow> map_of (dict ab) n
               | Some b \<Rightarrow> map_option (\<lambda>a. copy_inplace a b) (map_of (dict ab) n)))"
proof -
  have "fst ` set (dict mb) \<subseteq> fst ` set (dict ab)"
    using assms keys_dict [of mb] keys_dict [of ab] by (simp add: keys_def)
  then show ?thesis
    unfolding items_def by (intro copy_loop_spec distinct_dict)
qed

lemma map_of_same_keys:
  assumes "fst ` set xs = fst ` set ys"
  shows "map_of xs n = None \<longleftrightarrow> map_of ys n = None"
  using assms by (simp add: map_of_eq_None_iff)

lemma copy_result:
  assumes "fst ` set mb = fst ` set ab"
      and "\<forall>n. map_of ab' n =
              (case map_of mb n of
                 None \<Rightarrow> map_of ab n
               | Some b \<Rightarrow> map_option (\<lambda>a. copy_inplace a b) (map_of ab n))"
  shows "map_of ab' = map_of mb"
proof
  fix n
  show "map_of ab' n = map_of mb n"
    using assms(2) map_of_same_keys [OF assms(1), of n]
    by (cases "map_of mb n"; cases "map_of ab n") (auto simp: copy_inplace_def)
qed

lemma ema_update_params_mismatch:
  assumes "fst ` set (named_parameters model) \<noteq> fst ` set (named_parameters averaged_model)"
  shows "ema_update model averaged_model decay = (Some AssertionError, averaged_model)"
  using assms by (simp add: ema_update_def Let_def keys_dict)

lemma ema_update_buffers_mismatch:
  assumes "fst ` set (named_parameters model) = fst ` set (named_parameters averaged_model)"
      and "fst ` set (named_buffers model) \<noteq> fst ` set (named_buffers averaged_model)"
  shows "\<exists>ap'. ema_update model averaged_model decay =
                 (Some AssertionError, averaged_model\<lparr>named_parameters := ap'\<rparr>) \<and>
           map fst ap' = map fst (dict (named_parameters averaged_model)) \<and>
           (\<forall>n. map_of ap' n =
              (case map_of (dict (named_parameters model)) n of
                 None \<Rightarrow> map_of (dict (named_parameters averaged_model)) n
               | Some p \<Rightarrow> map_option (\<lambda>a. add_inplace (mul_inplace a decay) p (1 - decay))
                             (map_of (dict (named_parameters averaged_model)) n)))"
proof -
  from blend_dict [OF assms(1), of decay] obtain ap' where
    run: "blend_loop (items (dict (named_parameters model))) decay
            (dict (named_parameters averaged_model)) = (None, ap')" and
    rest: "map fst ap' = map fst (dict (named_parameters averaged_model))"
      "\<forall>n. map_of ap' n =
              (case map_of (dict (named_parameters model)) n of
                 None \<Rightarrow> map_of (dict (named_parameters averaged_model)) n
               | Some p \<Rightarrow> map_option (\<lambda>a. add_inplace (mul_inplace a decay) p (1 - decay))
                             (map_of (dict (named_parameters averaged_model)) n))"
    by blast
  have "ema_update model averaged_model decay =
          (Some AssertionError, averaged_model\<lparr>named_parameters := ap'\<rparr>)"
    using assms run by (simp add: ema_update_def Let_def keys_dict)
  with rest show ?thesis by blast
qed

lemma ema_update_ok:
  assumes "fst ` set (named_parameters model) = fst ` set (named_parameters averaged_model)"
      and "fst ` set (named_buffers model) = fst ` set (named_buffers averaged_model)"
  shows "\<exists>ap' ab'. ema_update model averaged_model decay =
                 (None, averaged_model\<lparr>named_parameters := ap', named_buffers := ab'\<rparr>) \<and>
           map_of ab' = map_of (dict (named_buffers model)) \<and>
           (\<forall>n. map_of ap' n =
              (case map_of (dict (named_parameters model)) n of
                 None \<Rightarrow> map_of (dict (named_parameters averaged_model)) n
               | Some p \<Rightarrow> map_option (\<lambda>a. add_inplace (mul_inplace a decay) p (1 - decay))
                             (map_of (dict (named_parameters averaged_model)) n)))"
proof -
  from blend_dict [OF assms(1), of decay] obtain ap' where
    run: "blend_loop (items (dict (named_parameters model))) decay
            (dict (named_parameters averaged_model)) = (None, ap')" and
    rest: "\<forall>n. map_of ap' n =
              (case map_of (dict (named_parameters model)) n of
                 None \<Rightarrow> map_of (dict (named_parameters averaged_model)) n
               | Some p \<Rightarrow> map_option (\<lambda>a. add_inplace (mul_inplace a decay) p (1 - decay))
                             (map_of (dict (named_parameters averaged_model)) n))"
    by blast
  from copy_dict [OF assms(2)] obtain ab' where
    run2: "copy_loop (items (dict (named_buffers model))) (dict (named_buffers averaged_model))
             = (None, ab')" and
    rest2: "\<forall>n. map_of ab' n =
              (case map_of (dict (named_buffers model)) n of
                 None \<Rightarrow> map_of (dict (named_buffers averaged_model)) n
               | Some b \<Rightarrow> map_option (\<lambda>a. copy_inplace a b)
                             (map_of (dict (named_buffers averaged_model)) n))"
    by blast
  have "fst ` set (dict (named_buffers model)) = fst ` set (dict (named_buffers averaged_model))"
    using assms(2) keys_dict [of "named_buffers model"]
      keys_dict [of "named_buffers averaged_model"] by (simp add: keys_def)
  then have bufs: "map_of ab' = map_of (dict (named_buffers model))"
    using rest2 by (rule copy_result)
  have "ema_update model averaged_model decay =
          (None, averaged_model\<lparr>named_parameters := ap', named_buffers := ab'\<rparr>)"
    using assms run run2 by (simp add: ema_update_def Let_def keys_dict)
  with rest bufs show ?thesis by blast
qed

section \<open>The EMA update\<close>

text \<open>The arithmetic of the two decay values on tensor entries.\<close>

lemma fmul_one: "fmul x 1 = x"
  by (cases x) simp_all

lemma fadd_zero_right: "fadd x (Fin 0) = x"
  by (cases x) simp_all

lemma fadd_zero_left: "fadd (Fin 0) y = y"
  by (cases y) simp_all

lemma blend_decay_one:
  assumes "finite_tensor p"
  shows "add_inplace (mul_inplace a 1) p (1 - 1) = a"
proof
  fix i
  obtain r where "p i = Fin r" using assms by (auto simp: finite_tensor_def)
  then show "add_inplace (mul_inplace a 1) p (1 - 1) i = a i"
    by (simp add: add_inplace_def mul_inplace_def fmul_one fadd_zero_right)
qed

lemma blend_decay_zero:
  assumes "finite_tensor a"
  shows "add_inplace (mul_inplace a 0) p (1 - 0) = p"
proof
  fix i
  obtain r where "a i = Fin r" using assms by (auto simp: finite_tensor_def)
  then show "add_inplace (mul_inplace a 0) p (1 - 0) i = p i"
    by (simp add: add_inplace_def mul_inplace_def fmul_one fadd_zero_left)
qed

text \<open>On finite entries the blend is the convex combination of the two entries.\<close>

lemma blend_finite:
  assumes "a i = Fin r" "p i = Fin s"
  shows "add_inplace (mul_inplace a decay) p (1 - decay) i = Fin (r * decay + s * (1 - decay))"
  using assms by (simp add: add_inplace_def mul_inplace_def)

lemma fold_update_values:
  "map_of (fold (\<lambda>(k, v) d. AList.update k v d) pairs acc) n = Some p \<Longrightarrow>
   p \<in> snd ` set pairs \<or> map_of acc n = Some p"
proof (induction pairs arbitrary: acc)
  case Nil
  then show ?case by simp
next
  case (Cons kv pairs)
  obtain k v where kv: "kv = (k, v)" by (cases kv)
  from Cons.prems kv have
    "map_of (fold (\<lambda>(k, v) d. AList.update k v d) pairs (AList.update k v acc)) n = Some p"
    by simp
  from Cons.IH [OF this] have "p \<in> snd ` set pairs \<or> map_of (AList.update k v acc) n = Some p" .
  then show ?case
    using kv by (auto simp: update_conv' split: if_splits)
qed

lemma dict_values: "map_of (dict pairs) n = Some p \<Longrightarrow> p \<in> snd ` set pairs"
  using fold_update_values [of pairs "[]" n p] by (simp add: dict_def)

text \<open>
  Claim C5, as stated: for every model and shadow with matching names, \<open>decay = 0\<close> makes every
  shadow parameter equal to the model's and \<open>decay = 1\<close> leaves every shadow parameter
  unchanged. The code computes \<open>a * decay + (1 - decay) * p\<close> on every entry, so the term
  with the factor zero is still evaluated: with \<open>decay = 0\<close> an infinite shadow entry gives
  NaN, not the model's entry 2; with \<open>decay = 1\<close> an infinite model entry turns the shadow
  entry 4 into NaN.
\<close>

theorem ema_update_nonfinite_counterexample:
  "fst ` set (named_parameters \<lparr>named_parameters = [(''w'', \<lambda>i::nat. Fin 2)], named_buffers = []\<rparr>)
     = fst ` set (named_parameters \<lparr>named_parameters = [(''w'', \<lambda>i::nat. PInf)], named_buffers = []\<rparr>) \<and>
   map_of (named_parameters (snd (ema_update
       \<lparr>named_parameters = [(''w'', \<lambda>i::nat. Fin 2)], named_buffers = []\<rparr>
       \<lparr>named_parameters = [(''w'', \<lambda>i::nat. PInf)], named_buffers = []\<rparr> 0))) ''w''
     = Some (\<lambda>i. NaN) \<and>
   (\<lambda>i::nat. NaN) \<noteq> (\<lambda>i. Fin 2) \<and>
   map_of (named_parameters (snd (ema_update
       \<lparr>named_parameters = [(''w'', \<lambda>i::nat. PInf)], named_buffers = []\<rparr>
       \<lparr>named_parameters = [(''w'', \<lambda>i::nat. Fin 4)], named_buffers = []\<rparr> 1))) ''w''
     = Some (\<lambda>i. NaN) \<and>
   (\<lambda>i::nat. NaN) \<noteq> (\<lambda>i. Fin 4)"
  by (simp add: ema_update_def dict_def keys_def items_def add_inplace_def mul_inplace_def
      fun_eq_iff)

text \<open>
  Claim C5, amended. For a model and a shadow with the same parameter names and the same buffer
  names, \<open>ema_update\<close> returns normally; with \<open>decay = 1\<close> every shadow parameter keeps its
  value, provided every entry of every model parameter is finite; with \<open>decay = 0\<close> every
  shadow parameter becomes the model's parameter of that name, provided every entry of every
  shadow parameter is finite; and for every \<open>decay\<close> every shadow buffer becomes the model's
  buffer of that name, whatever its entries.
\<close>

theorem ema_update_identities:
  fixes model averaged_model :: "('i \<Rightarrow> fnum) module"
  assumes "fst ` set (named_parameters model) = fst ` set (named_parameters averaged_model)"
      and "fst ` set (named_buffers model) = fst ` set (named_buffers averaged_model)"
  shows "fst (ema_update model averaged_model decay) = None \<and>
         ((\<forall>p \<in> snd ` set (named_parameters model). finite_tensor p) \<longrightarrow>
            map_of (named_parameters (snd (ema_update model averaged_model 1)))
              = map_of (dict (named_parameters averaged_model))) \<and>
         ((\<forall>a \<in> snd ` set (named_parameters averaged_model). finite_tensor a) \<longrightarrow>
            map_of (named_parameters (snd (ema_update model averaged_model 0)))
              = map_of (dict (named_parameters model))) \<and>
         map_of (named_buffers (snd (ema_update model averaged_model decay)))
           = map_of (dict (named_buffers model))"
proof -
  let ?mp = "dict (named_parameters model)" and ?ap = "dict (named_parameters averaged_model)"
  have same: "map_of ?mp n = None \<longleftrightarrow> map_of ?ap n = None" for n
    using assms(1) keys_dict [of "named_parameters model"]
      keys_dict [of "named_parameters averaged_model"]
    by (intro map_of_same_keys) (simp add: keys_def)
  from ema_update_ok [OF assms, of decay] have general:
    "fst (ema_update model averaged_model decay) = None"
    "map_of (named_buffers (snd (ema_update model averaged_model decay)))
       = map_of (dict (named_buffers model))"
    by auto
  have keep: "map_of (named_parameters (snd (ema_update model averaged_model 1))) = map_of ?ap"
    if fin: "\<forall>p \<in> snd ` set (named_parameters model). finite_tensor p"
  proof -
    from ema_update_ok [OF assms, of 1] obtain ap1 ab1 where
      one: "ema_update model averaged_model 1 =
              (None, averaged_model\<lparr>named_parameters := ap1, named_buffers := ab1\<rparr>)" and
      v1: "\<forall>n. map_of ap1 n =
                (case map_of ?mp n of
                   None \<Rightarrow> map_of ?ap n
                 | Some p \<Rightarrow> map_option (\<lambda>a. add_inplace (mul_inplace a 1) p (1 - 1))
                               (map_of ?ap n))"
      by blast
    have "map_of ap1 n = map_of ?ap n" for n
    proof (cases "map_of ?mp n")
      case None
      with v1 show ?thesis by simp
    next
      case (Some p)
      then have "finite_tensor p" using fin dict_values [of "named_parameters model" n p] by blast
      then have "(\<lambda>a. add_inplace (mul_inplace a 1) p (1 - 1)) = (\<lambda>a. a)"
        by (simp only: blend_decay_one)
      with v1 Some show ?thesis by (simp add: option.map_ident)
    qed
    then show ?thesis using one by auto
  qed
  have take: "map_of (named_parameters (snd (ema_update model averaged_model 0))) = map_of ?mp"
    if fin: "\<forall>a \<in> snd ` set (named_parameters averaged_model). finite_tensor a"
  proof -
    from ema_update_ok [OF assms, of 0] obtain ap0 ab0 where
      zero: "ema_update model averaged_model 0 =
              (None, averaged_model\<lparr>named_parameters := ap0, named_buffers := ab0\<rparr>)" and
      v0: "\<forall>n. map_of ap0 n =
                (case map_of ?mp n of
                   None \<Rightarrow> map_of ?ap n
                 | Some p \<Rightarrow> map_option (\<lambda>a. add_inplace (mul_inplace a 0) p (1 - 0))
                               (map_of ?ap n))"
      by blast
    have "map_of ap0 n = map_of ?mp n" for n
    proof (cases "map_of ?mp n")
      case None
      with v0 same [of n] show ?thesis by simp
    next
      case (Some p)
      with same [of n] obtain a where a: "map_of ?ap n = Some a" by auto
      then have "finite_tensor a"
        using fin dict_values [of "named_parameters averaged_model" n a] by blast
      then have "add_inplace (mul_inplace a 0) p (1 - 0) = p" by (rule blend_decay_zero)
      with v0 Some a show ?thesis by simp
    qed
    then show ?thesis using zero by auto
  qed
  from general keep take show ?thesis by blast
qed

theorem ema_update_identities_witness:
  "fst ` set (named_parameters
       \<lparr>named_parameters = [(''w'', \<lambda>i::nat. Fin 2)], named_buffers = [(''m'', \<lambda>i. PInf)]\<rparr>)
     = fst ` set (named_parameters
       \<lparr>named_parameters = [(''w'', \<lambda>i::nat. Fin 4)], named_buffers = [(''m'', \<lambda>i. Fin 7)]\<rparr>) \<and>
   fst ` set (named_buffers
       \<lparr>named_parameters = [(''w'', \<lambda>i::nat. Fin 2)], named_buffers = [(''m'', \<lambda>i. PInf)]\<rparr>)
     = fst ` set (named_buffers
       \<lparr>named_parameters = [(''w'', \<lambda>i::nat. Fin 4)], named_buffers = [(''m'', \<lambda>i. Fin 7)]\<rparr>) \<and>
   finite_tensor (\<lambda>i::nat. Fin 2) \<and> finite_tensor (\<lambda>i::nat. Fin 4) \<and>
   map_of (named_parameters (snd (ema_update
       \<lparr>named_parameters = [(''w'', \<lambda>i::nat. Fin 2)], named_buffers = [(''m'', \<lambda>i. PInf)]\<rparr>
       \<lparr>named_parameters = [(''w'', \<lambda>i::nat. Fin 4)], named_buffers = [(''m'', \<lambda>i. Fin 7)]\<rparr>
       1))) ''w'' = Some (\<lambda>i. Fin 4) \<and>
   map_of (named_parameters (snd (ema_update
       \<lparr>named_parameters = [(''w'', \<lambda>i::nat. Fin 2)], named_buffers = [(''m'', \<lambda>i. PInf)]\<rparr>
       \<lparr>named_parameters = [(''w'', \<lambda>i::nat. Fin 4)], named_buffers = [(''m'', \<lambda>i. Fin 7)]\<rparr>
       0))) ''w'' = Some (\<lambda>i. Fin 2) \<and>
   map_of (named_buffers (snd (ema_update
       \<lparr>named_parameters = [(''w'', \<lambda>i::nat. Fin 2)], named_buffers = [(''m'', \<lambda>i. PInf)]\<rparr>
       \<lparr>named_parameters = [(''w'', \<lambda>i::nat. Fin 4)], named_buffers = [(''m'', \<lambda>i. Fin 7)]\<rparr>
       (1 / 2)))) ''m'' = Some (\<lambda>i. PInf)"
proof -
  have fin: "finite_tensor (\<lambda>i::nat. Fin 2)" "finite_tensor (\<lambda>i::nat. Fin 4)"
    by (simp_all add: finite_tensor_def)
  from fin ema_update_identities
    [of "\<lparr>named_parameters = [(''w'', \<lambda>i::nat. Fin 2)], named_buffers = [(''m'', \<lambda>i. PInf)]\<rparr>"
        "\<lparr>named_parameters = [(''w'', \<lambda>i::nat. Fin 4)], named_buffers = [(''m'', \<lambda>i. Fin 7)]\<rparr>"
        "1 / 2"]
  show ?thesis by (simp add: dict_def)
qed

text \<open>
  Claim C6. If the parameter names of the model and of the shadow differ as sets, or their
  buffer names do, \<open>ema_update\<close> raises \<open>AssertionError\<close>: it never returns normally under a
  name-set mismatch.
\<close>

theorem ema_update_mismatch_aborts:
  fixes model averaged_model :: "('i \<Rightarrow> fnum) module"
  assumes "fst ` set (named_parameters model) \<noteq> fst ` set (named_parameters averaged_model) \<or>
           fst ` set (named_buffers model) \<noteq> fst ` set (named_buffers averaged_model)"
  shows "fst (ema_update model averaged_model decay) = Some AssertionError"
proof (cases "fst ` set (named_parameters model) = fst ` set (named_parameters averaged_model)")
  case False
  then show ?thesis by (simp add: ema_update_params_mismatch)
next
  case True
  with assms have "fst ` set (named_buffers model) \<noteq> fst ` set (named_buffers averaged_model)"
    by simp
  from ema_update_buffers_mismatch [OF True this, of decay] show ?thesis by auto
qed

theorem ema_update_mismatch_aborts_witness:
  "fst ` set (named_buffers
       \<lparr>named_parameters = [(''w'', \<lambda>i::nat. Fin 2)], named_buffers = [(''m'', \<lambda>i. Fin 5)]\<rparr>)
     \<noteq> fst ` set (named_buffers
       \<lparr>named_parameters = [(''w'', \<lambda>i::nat. Fin 4)], named_buffers = []\<rparr>) \<and>
   fst (ema_update
       \<lparr>named_parameters = [(''w'', \<lambda>i::nat. Fin 2)], named_buffers = [(''m'', \<lambda>i. Fin 5)]\<rparr>
       \<lparr>named_parameters = [(''w'', \<lambda>i::nat. Fin 4)], named_buffers = []\<rparr> (1 / 2))
     = Some AssertionError"
  using ema_update_mismatch_aborts
    [of "\<lparr>named_parameters = [(''w'', \<lambda>i::nat. Fin 2)], named_buffers = [(''m'', \<lambda>i. Fin 5)]\<rparr>"
        "\<lparr>named_parameters = [(''w'', \<lambda>i::nat. Fin 4)], named_buffers = []\<rparr>" "1 / 2"]
  by simp

text \<open>
  Claim C10. The failure of \<open>ema_update\<close> is not atomic. On a mismatch of the parameter names
  the shadow model is left as it was. On a mismatch of the buffer names alone the update
  raises after the first loop: every shadow parameter holds its blended value
  \<open>shadow * decay + (1 - decay) * model\<close>, and the shadow's buffers are as they were.
\<close>

theorem ema_update_failure_not_atomic:
  fixes model averaged_model :: "('i \<Rightarrow> fnum) module"
  shows
  "(fst ` set (named_parameters model) \<noteq> fst ` set (named_parameters averaged_model) \<longrightarrow>
      ema_update model averaged_model decay = (Some AssertionError, averaged_model)) \<and>
   (fst ` set (named_parameters model) = fst ` set (named_parameters averaged_model) \<and>
    fst ` set (named_buffers model) \<noteq> fst ` set (named_buffers averaged_model) \<longrightarrow>
      fst (ema_update model averaged_model decay) = Some AssertionError \<and>
      named_buffers (snd (ema_update model averaged_model decay)) = named_buffers averaged_model \<and>
      (\<forall>n. map_of (named_parameters (snd (ema_update model averaged_model decay))) n =
           (case (map_of (dict (named_parameters averaged_model)) n,
                  map_of (dict (named_parameters model)) n) of
              (Some a, Some p) \<Rightarrow> Some (add_inplace (mul_inplace a decay) p (1 - decay))
            | _ \<Rightarrow> None)))"
proof (intro conjI impI)
  assume "fst ` set (named_parameters model) \<noteq> fst ` set (named_parameters averaged_model)"
  then show "ema_update model averaged_model decay = (Some AssertionError, averaged_model)"
    by (rule ema_update_params_mismatch)
next
  assume h: "fst ` set (named_parameters model) = fst ` set (named_parameters averaged_model) \<and>
    fst ` set (named_buffers model) \<noteq> fst ` set (named_buffers averaged_model)"
  let ?mp = "dict (named_parameters model)" and ?ap = "dict (named_parameters averaged_model)"
  have same: "map_of ?mp n = None \<longleftrightarrow> map_of ?ap n = None" for n
    using h keys_dict [of "named_parameters model"]
      keys_dict [of "named_parameters averaged_model"]
    by (intro map_of_same_keys) (simp add: keys_def)
  from h ema_update_buffers_mismatch [of model averaged_model decay] obtain ap' where
    run: "ema_update model averaged_model decay =
            (Some AssertionError, averaged_model\<lparr>named_parameters := ap'\<rparr>)" and
    v: "\<forall>n. map_of ap' n =
              (case map_of ?mp n of
                 None \<Rightarrow> map_of ?ap n
               | Some p \<Rightarrow> map_option (\<lambda>a. add_inplace (mul_inplace a decay) p (1 - decay))
                             (map_of ?ap n))"
    by blast
  show "fst (ema_update model averaged_model decay) = Some AssertionError"
    using run by simp
  show "named_buffers (snd (ema_update model averaged_model decay)) = named_buffers averaged_model"
    using run by simp
  have "map_of ap' n =
           (case (map_of ?ap n, map_of ?mp n) of
              (Some a, Some p) \<Rightarrow> Some (add_inplace (mul_inplace a decay) p (1 - decay))
            | _ \<Rightarrow> None)" for n
    using v same [of n] by (cases "map_of ?mp n"; cases "map_of ?ap n") auto
  then show "\<forall>n. map_of (named_parameters (snd (ema_update model averaged_model decay))) n =
           (case (map_of ?ap n, map_of ?mp n) of
              (Some a, Some p) \<Rightarrow> Some (add_inplace (mul_inplace a decay) p (1 - decay))
            | _ \<Rightarrow> None)"
    using run by simp
qed

theorem ema_update_failure_not_atomic_witness:
  "fst ` set (named_parameters
       \<lparr>named_parameters = [(''w'', \<lambda>i::nat. Fin 2)], named_buffers = [(''m'', \<lambda>i. Fin 5)]\<rparr>)
     \<noteq> fst ` set (named_parameters
       \<lparr>named_parameters = [(''u'', \<lambda>i::nat. Fin 4)], named_buffers = [(''m'', \<lambda>i. Fin 7)]\<rparr>) \<and>
   ema_update
       \<lparr>named_parameters = [(''w'', \<lambda>i::nat. Fin 2)], named_buffers = [(''m'', \<lambda>i. Fin 5)]\<rparr>
       \<lparr>named_parameters = [(''u'', \<lambda>i::nat. Fin 4)], named_buffers = [(''m'', \<lambda>i. Fin 7)]\<rparr>
       (1 / 2)
     = (Some AssertionError,
        \<lparr>named_parameters = [(''u'', \<lambda>i::nat. Fin 4)], named_buffers = [(''m'', \<lambda>i. Fin 7)]\<rparr>) \<and>
   fst ` set (named_parameters
       \<lparr>named_parameters = [(''w'', \<lambda>i::nat. Fin 2)], named_buffers = [(''m'', \<lambda>i. Fin 5)]\<rparr>)
     = fst ` set (named_parameters
       \<lparr>named_parameters = [(''w'', \<lambda>i::nat. Fin 4)], named_buffers = [(''k'', \<lambda>i. Fin 7)]\<rparr>) \<and>
   fst ` set (named_buffers
       \<lparr>named_parameters = [(''w'', \<lambda>i::nat. Fin 2)], named_buffers = [(''m'', \<lambda>i. Fin 5)]\<rparr>)
     \<noteq> fst ` set (named_buffers
       \<lparr>named_parameters = [(''w'', \<lambda>i::nat. Fin 4)], named_buffers = [(''k'', \<lambda>i. Fin 7)]\<rparr>) \<and>
   fst (ema_update
       \<lparr>named_parameters = [(''w'', \<lambda>i::nat. Fin 2)], named_buffers = [(''m'', \<lambda>i. Fin 5)]\<rparr>
       \<lparr>named_parameters = [(''w'', \<lambda>i::nat. Fin 4)], named_buffers = [(''k'', \<lambda>i. Fin 7)]\<rparr>
       (1 / 2))
     = Some AssertionError \<and>
   named_buffers (snd (ema_update
       \<lparr>named_parameters = [(''w'', \<lambda>i::nat. Fin 2)], named_buffers = [(''m'', \<lambda>i. Fin 5)]\<rparr>
       \<lparr>named_parameters = [(''w'', \<lambda>i::nat. Fin 4)], named_buffers = [(''k'', \<lambda>i. Fin 7)]\<rparr>
       (1 / 2)))
     = [(''k'', \<lambda>i. Fin 7)] \<and>
   map_of (named_parameters (snd (ema_update
       \<lparr>named_parameters = [(''w'', \<lambda>i::nat. Fin 2)], named_buffers = [(''m'', \<lambda>i. Fin 5)]\<rparr>
       \<lparr>named_parameters = [(''w'', \<lambda>i::nat. Fin 4)], named_buffers = [(''k'', \<lambda>i. Fin 7)]\<rparr>
       (1 / 2)))) ''w'' = Some (\<lambda>i. Fin 3)"
  using ema_update_failure_not_atomic
    [of "\<lparr>named_parameters = [(''w'', \<lambda>i::nat. Fin 2)], named_buffers = [(''m'', \<lambda>i. Fin 5)]\<rparr>"
        "\<lparr>named_parameters = [(''u'', \<lambda>i::nat. Fin 4)], named_buffers = [(''m'', \<lambda>i. Fin 7)]\<rparr>"
        "1 / 2"]
    ema_update_failure_not_atomic
    [of "\<lparr>named_parameters = [(''w'', \<lambda>i::nat. Fin 2)], named_buffers = [(''m'', \<lambda>i. Fin 5)]\<rparr>"
        "\<lparr>named_parameters = [(''w'', \<lambda>i::nat. Fin 4)], named_buffers = [(''k'', \<lambda>i. Fin 7)]\<rparr>"
        "1 / 2"]
  by (simp add: dict_def add_inplace_def mul_inplace_def)

section \<open>The EMA warmup\<close>

text \<open>Numbers of moderate size are far inside the finite range of a float.\<close>

lemma float_limit_large: "1000 < float_limit"
proof -
  have "(2::real) ^ 970 * 2 \<le> 2 ^ 970 * 2 ^ 54" by (intro mult_left_mono) simp_all
  then have "(2::real) ^ 970 * 2 \<le> 2 ^ 1024" by (simp add: power_add [symmetric])
  moreover have "(1000::real) < 2 ^ 10" by simp
  moreover have "(2::real) ^ 10 \<le> 2 ^ 970" by (intro power_increasing) simp_all
  ultimately show ?thesis by (simp add: float_limit_def)
qed

text \<open>
  The epoch is never negative, so the branch \<open>0. if epoch < 0\<close> of the source is never taken:
  before \<open>start_at\<close> the epoch is 0, the value is \<open>1 - 1 ** -power = 0\<close>, and the result is
  zero clamped into the interval from \<open>min_value\<close> to \<open>max_value\<close>.
\<close>

lemma get_value_before_start:
  assumes "inv_gamma self \<noteq> 0" "last_epoch self < start_at self"
  shows "get_value self = Inr (min (max_value self) (max (min_value self) 0))"
  using assms float_limit_large
  by (simp add: get_value_def py_float_of_int_def py_truediv_def py_pow_def Let_def max_def)

text \<open>
  Claim C2. \<open>get_value\<close> is claimed to return exactly 0 for every configuration whenever
  \<open>last_epoch < start_at\<close>, and the source has the branch \<open>0. if epoch < 0\<close> for it. With
  \<open>inv_gamma = 1\<close>, \<open>power = 1\<close>, \<open>min_value = 0.5\<close>, \<open>max_value = 1\<close>, \<open>start_at = 10\<close> and
  \<open>last_epoch = 0\<close> the code returns 0.5.
\<close>

theorem get_value_before_start_at_min_value:
  "get_value \<lparr>inv_gamma = 1, power' = 1, min_value = 1 / 2, max_value = 1, start_at = 10, last_epoch = 0\<rparr>
     = Inr (1 / 2)"
  using float_limit_large
  by (simp add: get_value_def py_float_of_int_def py_truediv_def py_pow_def)

text \<open>
  Claim C3, as stated: with \<open>inv_gamma = 1\<close>, \<open>power = 1\<close>, \<open>min_value = 0\<close>, \<open>max_value = 1\<close>,
  \<open>start_at = 0\<close>, \<open>get_value\<close> returns 0.5 at \<open>last_epoch = 0\<close> and 0.9 at \<open>last_epoch = 9\<close>.
  This is false: at \<open>last_epoch = 0\<close> the value is \<open>1 - (1 + 0) ** -1 = 0\<close>.
\<close>

theorem get_value_simple_average_counterexample:
  "\<not> (get_value \<lparr>inv_gamma = 1, power' = 1, min_value = 0, max_value = 1, start_at = 0, last_epoch = 0\<rparr> = Inr (1 / 2) \<and>
      get_value \<lparr>inv_gamma = 1, power' = 1, min_value = 0, max_value = 1, start_at = 0, last_epoch = 9\<rparr> = Inr (9 / 10))"
  using float_limit_large
  by (simp add: get_value_def py_float_of_int_def py_truediv_def py_pow_def)

text \<open>
  Claim C3, amended: with that configuration \<open>get_value\<close> returns 0 at \<open>last_epoch = 0\<close> and
  0.9 at \<open>last_epoch = 9\<close>.
\<close>

theorem get_value_simple_average:
  "get_value \<lparr>inv_gamma = 1, power' = 1, min_value = 0, max_value = 1, start_at = 0, last_epoch = 0\<rparr> = Inr 0 \<and>
   get_value \<lparr>inv_gamma = 1, power' = 1, min_value = 0, max_value = 1, start_at = 0, last_epoch = 9\<rparr> = Inr (9 / 10)"
  using float_limit_large
  by (simp add: get_value_def py_float_of_int_def py_truediv_def py_pow_def)

text \<open>
  The paths on which \<open>get_value\<close> raises: an epoch too large for a float, a zero
  \<open>inv_gamma\<close>, and a power beyond the finite range.
\<close>

lemma get_value_zero_division:
  "get_value \<lparr>inv_gamma = 0, power' = 1, min_value = 0, max_value = 1, start_at = 1, last_epoch = 0\<rparr>
     = Inl ZeroDivisionError"
  using float_limit_large
  by (simp add: get_value_def py_float_of_int_def py_truediv_def)

lemma get_value_int_too_large:
  "get_value \<lparr>inv_gamma = 1, power' = 1, min_value = 0, max_value = 1, start_at = 0, last_epoch = 2 ^ 1024\<rparr>
     = Inl OverflowError"
proof -
  have "float_limit \<le> 2 ^ 1024" by (simp add: float_limit_def)
  then show ?thesis
    by (simp add: get_value_def py_float_of_int_def)
qed

section \<open>The working schedule of the sampler\<close>

lemma length_linspace: "length (linspace a b n) = n"
  by (simp add: linspace_def)

lemma butlast_linspace:
  "butlast (linspace a b (Suc n)) = map (\<lambda>i. a + real i * ((b - a) / real n)) [0..<n]"
proof (cases "n = 0")
  case True
  then show ?thesis by (simp add: linspace_def)
next
  case False
  then have "linspace a b (Suc n) = map (\<lambda>i. a + real i * ((b - a) / real n)) [0..<Suc n]"
    by (simp add: linspace_def)
  then show ?thesis by simp
qed

lemma sample_schedule_eq:
  assumes "0 \<le> steps"
  shows "sample_schedule steps =
           map (\<lambda>i. get_crash_schedule (1 + real i * ((0 - 1) / real (nat steps)))) [0..<nat steps]"
proof -
  have "nat (steps + 1) = Suc (nat steps)" using assms by simp
  then show ?thesis
    by (simp add: sample_schedule_def butlast_linspace o_def)
qed

lemma length_sample_schedule: "0 \<le> steps \<Longrightarrow> length (sample_schedule steps) = nat steps"
  by (simp add: sample_schedule_eq)

lemma crash_range:
  assumes "0 < t" "t \<le> 1"
  shows "0 < get_crash_schedule t \<and> get_crash_schedule t \<le> 1"
proof -
  have "get_crash_schedule 0 < get_crash_schedule t"
    using assms by (intro crash_strict_mono) auto
  moreover have "get_crash_schedule t \<le> get_crash_schedule 1"
  proof (cases "t = 1")
    case True
    then show ?thesis by simp
  next
    case False
    with assms have "get_crash_schedule t < get_crash_schedule 1"
      by (intro crash_strict_mono) auto
    then show ?thesis by simp
  qed
  ultimately show ?thesis by (simp add: crash_at_zero crash_at_one)
qed

lemma sigma_pos:
  assumes "0 < t" "t \<le> 1"
  shows "0 < snd (get_alphas_sigmas t)"
proof -
  have "0 < t * pi" "t * pi \<le> 1 * pi"
    using assms by (simp_all del: mult_1)
  then have "0 < t * pi / 2" "t * pi / 2 < pi"
    using pi_gt_zero by linarith+
  then have "0 < sin (t * pi / 2)" by (rule sin_gt_zero)
  then show ?thesis by (simp add: get_alphas_sigmas_def)
qed

lemma sample_schedule_nth:
  assumes "1 \<le> steps" "i < nat steps"
  shows "0 < sample_schedule steps ! i \<and> sample_schedule steps ! i \<le> 1"
proof -
  let ?n = "real (nat steps)"
  have n: "0 < ?n" using assms by simp
  have i: "real i < ?n" using assms by simp
  have "real i / ?n < 1" using i n by simp
  moreover have "0 \<le> real i / ?n" using n by simp
  ultimately have "0 < 1 + real i * ((0 - 1) / ?n) \<and> 1 + real i * ((0 - 1) / ?n) \<le> 1"
    by (simp add: field_simps)
  then have "0 < get_crash_schedule (1 + real i * ((0 - 1) / ?n)) \<and>
             get_crash_schedule (1 + real i * ((0 - 1) / ?n)) \<le> 1"
    by (intro crash_range) auto
  then show ?thesis using assms by (simp add: sample_schedule_eq)
qed

lemma sample_sigmas_nth:
  assumes "1 \<le> steps" "i < nat steps"
  shows "0 < sample_sigmas steps ! i"
proof -
  have len: "i < length (sample_schedule steps)"
    using assms by (simp add: length_sample_schedule)
  have "0 < snd (get_alphas_sigmas (sample_schedule steps ! i))"
    using sample_schedule_nth [OF assms] by (intro sigma_pos) auto
  then show ?thesis using len by (simp add: sample_sigmas_def)
qed

lemma sample_step_model:
  "st_model (sample_step model randn_like ts steps eta t alphas sigmas i st)
     = snd (model (st_model st) (st_x st) (map (\<lambda>one. one * (t ! i)) ts))"
  by (simp add: sample_step_def Let_def split: prod.splits)

lemma sample_step_pred:
  "st_pred (sample_step model randn_like ts steps eta t alphas sigmas i st) \<noteq> None"
  by (simp add: sample_step_def Let_def split: prod.splits)

lemma fold_sample_step_calls:
  assumes "\<forall>m x ts. calls (snd (model m x ts)) = Suc (calls m)"
  shows "calls (st_model (fold (sample_step model randn_like ts steps eta t alphas sigmas) is st))
           = calls (st_model st) + length is"
  using assms by (induction "is" arbitrary: st) (simp_all add: sample_step_model)

lemma fold_sample_step_pred:
  "is \<noteq> [] \<Longrightarrow>
   st_pred (fold (sample_step model randn_like ts steps eta t alphas sigmas) is st) \<noteq> None"
  by (induction "is" arbitrary: st rule: rev_induct) (simp_all add: sample_step_pred)

lemma sample_returns:
  assumes "1 \<le> steps"
  shows "\<exists>p. sample model randn_like x0 steps eta m0 g =
           Inr (p, fold (sample_step model randn_like (replicate (length x0) 1) steps eta
                          (sample_schedule steps) (sample_alphas steps) (sample_sigmas steps))
                     [0..<nat steps]
                     \<lparr>st_x = x0, st_pred = None, st_model = m0, st_rng = g, draws = 0\<rparr>)"
proof -
  let ?st = "fold (sample_step model randn_like (replicate (length x0) 1) steps eta
                (sample_schedule steps) (sample_alphas steps) (sample_sigmas steps))
              [0..<nat steps]
              \<lparr>st_x = x0, st_pred = None, st_model = m0, st_rng = g, draws = 0\<rparr>"
  have "[0..<nat steps] \<noteq> []" using assms by simp
  then have "st_pred ?st \<noteq> None" by (rule fold_sample_step_pred)
  then obtain p where p: "st_pred ?st = Some p" by blast
  have "sample model randn_like x0 steps eta m0 g = Inr (p, ?st)"
    using assms p by (simp add: sample_def Let_def)
  then show ?thesis by blast
qed

text \<open>
  Claim C1. For every \<open>steps \<ge> 1\<close> the working schedule of \<open>sample\<close> has exactly \<open>steps\<close>
  entries, all strictly positive; the noise scale \<open>sigmas[i]\<close> is non-zero at every index, so
  that the quotient \<open>sigmas[i + 1] ** 2 / sigmas[i] ** 2\<close> never divides by zero; and \<open>sample\<close>
  returns after exactly \<open>steps\<close> calls of the model: whenever the state of the model records
  its calls, the record has grown by \<open>steps\<close> when \<open>sample\<close> returns.
\<close>

theorem sample_schedule_positive:
  assumes "1 \<le> steps"
  shows "length (sample_schedule steps) = nat steps \<and>
         (\<forall>i < nat steps. 0 < sample_schedule steps ! i) \<and>
         (\<forall>i < nat steps. sample_sigmas steps ! i \<noteq> 0) \<and>
         (\<exists>p st. sample model randn_like x0 steps eta m0 g = Inr (p, st) \<and>
            ((\<forall>m x ts. calls (snd (model m x ts)) = Suc (calls m)) \<longrightarrow>
               calls (st_model st) = calls m0 + nat steps))"
proof (intro conjI allI impI)
  show "length (sample_schedule steps) = nat steps"
    using assms by (simp add: length_sample_schedule)
next
  fix i assume "i < nat steps"
  with assms show "0 < sample_schedule steps ! i"
    by (simp add: sample_schedule_nth)
next
  fix i assume "i < nat steps"
  with assms have "0 < sample_sigmas steps ! i" by (rule sample_sigmas_nth)
  then show "sample_sigmas steps ! i \<noteq> 0" by simp
next
  let ?st = "fold (sample_step model randn_like (replicate (length x0) 1) steps eta
                (sample_schedule steps) (sample_alphas steps) (sample_sigmas steps))
              [0..<nat steps]
              \<lparr>st_x = x0, st_pred = None, st_model = m0, st_rng = g, draws = 0\<rparr>"
  obtain p where run: "sample model randn_like x0 steps eta m0 g = Inr (p, ?st)"
    using sample_returns [OF assms, of model randn_like x0 eta m0 g] by blast
  have "calls (st_model ?st) = calls m0 + nat steps"
    if "\<forall>m x ts. calls (snd (model m x ts)) = Suc (calls m)"
    by (simp add: fold_sample_step_calls [OF that])
  with run show "\<exists>p st. sample model randn_like x0 steps eta m0 g = Inr (p, st) \<and>
            ((\<forall>m x ts. calls (snd (model m x ts)) = Suc (calls m)) \<longrightarrow>
               calls (st_model st) = calls m0 + nat steps)"
    by blast
qed

theorem sample_schedule_positive_witness:
  "(1::int) \<le> 2 \<and> length (sample_schedule 2) = 2 \<and>
   0 < sample_schedule 2 ! 0 \<and> 0 < sample_schedule 2 ! 1 \<and>
   sample_sigmas 2 ! 0 \<noteq> 0 \<and> sample_sigmas 2 ! 1 \<noteq> 0 \<and>
   (\<exists>p st. sample (\<lambda>m x ts. (x, Suc m)) (\<lambda>g x. (x, Suc g)) [[1]] 2 1 0 0 = Inr (p, st) \<and>
            st_model st = 2)"
proof -
  have h: "(1::int) \<le> 2" by simp
  have c: "\<forall>m x ts. (\<lambda>m. m) (snd ((\<lambda>m x ts. (x, Suc m)) m (x::tensor) (ts::real list))) = Suc ((\<lambda>m. m) m)"
    by simp
  from sample_schedule_positive
    [OF h, of "\<lambda>m x ts. (x, Suc m)" "\<lambda>g x. (x, Suc g)" "[[1]]" 1 0 0 "\<lambda>m. m"] c
  show ?thesis by auto
qed

section \<open>The deterministic sampler\<close>

lemma sample_step_eta_zero_rng:
  "st_rng (sample_step model randn_like ts steps 0 t alphas sigmas i st) = st_rng st \<and>
   draws (sample_step model randn_like ts steps 0 t alphas sigmas i st) = draws st"
  by (simp add: sample_step_def Let_def split: prod.splits)

lemma sample_step_eta_zero_indep:
  assumes "st_x st = st_x st'" "st_model st = st_model st'"
  shows "st_x (sample_step model randn_like ts steps 0 t alphas sigmas i st)
           = st_x (sample_step model randn_like' ts steps 0 t alphas sigmas i st') \<and>
         st_pred (sample_step model randn_like ts steps 0 t alphas sigmas i st)
           = st_pred (sample_step model randn_like' ts steps 0 t alphas sigmas i st') \<and>
         st_model (sample_step model randn_like ts steps 0 t alphas sigmas i st)
           = st_model (sample_step model randn_like' ts steps 0 t alphas sigmas i st')"
  using assms by (simp add: sample_step_def Let_def split: prod.splits)

lemma fold_eta_zero_rng:
  "st_rng (fold (sample_step model randn_like ts steps 0 t alphas sigmas) is st) = st_rng st \<and>
   draws (fold (sample_step model randn_like ts steps 0 t alphas sigmas) is st) = draws st"
  by (induction "is" arbitrary: st) (simp_all add: sample_step_eta_zero_rng)

lemma fold_eta_zero_indep:
  assumes "st_x st = st_x st'" "st_pred st = st_pred st'" "st_model st = st_model st'"
  shows "st_x (fold (sample_step model randn_like ts steps 0 t alphas sigmas) is st)
           = st_x (fold (sample_step model randn_like' ts steps 0 t alphas sigmas) is st') \<and>
         st_pred (fold (sample_step model randn_like ts steps 0 t alphas sigmas) is st)
           = st_pred (fold (sample_step model randn_like' ts steps 0 t alphas sigmas) is st') \<and>
         st_model (fold (sample_step model randn_like ts steps 0 t alphas sigmas) is st)
           = st_model (fold (sample_step model randn_like' ts steps 0 t alphas sigmas) is st')"
  using assms
proof (induction "is" arbitrary: st st')
  case Nil
  then show ?case by simp
next
  case (Cons i "is")
  let ?a = "sample_step model randn_like ts steps 0 t alphas sigmas i st"
  let ?b = "sample_step model randn_like' ts steps 0 t alphas sigmas i st'"
  have "st_x ?a = st_x ?b" "st_pred ?a = st_pred ?b" "st_model ?a = st_model ?b"
    using sample_step_eta_zero_indep [OF Cons.prems(1) Cons.prems(3)] by blast+
  then show ?case
    using Cons.IH [of ?a ?b] by simp
qed

lemma sample_eta_zero_output:
  "map_sum id fst (sample model randn_like x0 steps 0 m0 g)
     = map_sum id fst (sample model randn_like' x0 steps 0 m0 g')"
proof -
  let ?a = "fold (sample_step model randn_like (replicate (length x0) 1) steps 0
                (sample_schedule steps) (sample_alphas steps) (sample_sigmas steps))
              [0..<nat steps]
              \<lparr>st_x = x0, st_pred = None, st_model = m0, st_rng = g, draws = 0\<rparr>"
  let ?b = "fold (sample_step model randn_like' (replicate (length x0) 1) steps 0
                (sample_schedule steps) (sample_alphas steps) (sample_sigmas steps))
              [0..<nat steps]
              \<lparr>st_x = x0, st_pred = None, st_model = m0, st_rng = g', draws = 0\<rparr>"
  have "st_pred ?a = st_pred ?b"
    using fold_eta_zero_indep
      [of "\<lparr>st_x = x0, st_pred = None, st_model = m0, st_rng = g, draws = 0\<rparr>"
          "\<lparr>st_x = x0, st_pred = None, st_model = m0, st_rng = g', draws = 0\<rparr>"]
    by simp
  then show ?thesis
    by (simp add: sample_def Let_def split: option.splits)
qed

text \<open>
  Claim C9. With \<open>eta = 0\<close> the outcome of \<open>sample\<close> (its result, or the exception it raises)
  is the same for every random source and every state of it, the model and its initial state
  being the same; and a run that returns has drawn nothing: the state of the random source is
  the initial one and the draw counter is zero.
\<close>

theorem sample_eta_zero_deterministic:
  "map_sum id fst (sample model randn_like x0 steps 0 m0 g)
     = map_sum id fst (sample model randn_like' x0 steps 0 m0 g') \<and>
   (1 \<le> steps \<longrightarrow>
      (\<exists>p st. sample model randn_like x0 steps 0 m0 g = Inr (p, st) \<and>
               st_rng st = g \<and> draws st = 0))"
proof (intro conjI impI)
  show "map_sum id fst (sample model randn_like x0 steps 0 m0 g)
     = map_sum id fst (sample model randn_like' x0 steps 0 m0 g')"
    by (rule sample_eta_zero_output)
next
  assume "1 \<le> steps"
  then obtain p where r: "sample model randn_like x0 steps 0 m0 g =
      Inr (p, fold (sample_step model randn_like (replicate (length x0) 1) steps 0
                (sample_schedule steps) (sample_alphas steps) (sample_sigmas steps))
              [0..<nat steps]
              \<lparr>st_x = x0, st_pred = None, st_model = m0, st_rng = g, draws = 0\<rparr>)"
    using sample_returns [of steps model randn_like x0 0 m0 g] by blast
  then show "\<exists>p st. sample model randn_like x0 steps 0 m0 g = Inr (p, st) \<and>
               st_rng st = g \<and> draws st = 0"
    by (simp add: fold_eta_zero_rng)
qed

theorem sample_eta_zero_deterministic_witness:
  "(1::int) \<le> 2 \<and>
   map_sum id fst (sample (\<lambda>m x ts. (x, Suc m)) (\<lambda>g x. (x, Suc g)) [[1]] 2 0 0 0)
     = map_sum id fst (sample (\<lambda>m x ts. (x, Suc m)) (\<lambda>g x. (tscale x 2, g + 2)) [[1]] 2 0 0 5) \<and>
   (\<exists>p st. sample (\<lambda>m x ts. (x, Suc m)) (\<lambda>g x. (x, Suc g)) [[1]] 2 0 0 0 = Inr (p, st) \<and>
            st_rng st = 0 \<and> draws st = 0)"
  using sample_eta_zero_deterministic
    [of "\<lambda>m x ts. (x, Suc m)" "\<lambda>g x. (x, Suc g)" "[[1]]" 2 0 0
        "\<lambda>g x. (tscale x 2, g + 2)" 5]
  by simp

section \<open>The schedule of style transfer in exact arithmetic\<close>

text \<open>
  The statements of this section hold in exact real arithmetic, where the crash schedule is
  strictly increasing. They say nothing about the float32 program, in which the sine is nearly
  constant close to \<open>t = 1\<close> and neighbouring timesteps can be rounded to one value.
\<close>

lemma linspace_unit_nth:
  assumes "n \<noteq> 1" "k < n"
  shows "linspace 0 1 n ! k = real k / real (n - 1)"
  using assms by (simp add: linspace_def)

lemma linspace_unit_sorted: "sorted_wrt (<) (linspace 0 1 n)"
proof (cases "n = 1")
  case True
  then show ?thesis by (simp add: linspace_def)
next
  case False
  have "linspace 0 1 n ! i < linspace 0 1 n ! j" if "i < j" "j < n" for i j
  proof -
    have pos: "0 < real (n - 1)" using that by simp
    have "real i < real j" using that by simp
    then have "real i / real (n - 1) < real j / real (n - 1)"
      using pos by (rule divide_strict_right_mono)
    moreover have "linspace 0 1 n ! i = real i / real (n - 1)"
      using False that by (intro linspace_unit_nth) auto
    moreover have "linspace 0 1 n ! j = real j / real (n - 1)"
      using False that by (intro linspace_unit_nth) auto
    ultimately show ?thesis by simp
  qed
  then show ?thesis
    by (simp only: sorted_wrt_iff_nth_less length_linspace) blast
qed

lemma linspace_unit_range:
  assumes "t \<in> set (linspace 0 1 n)"
  shows "0 \<le> t \<and> t \<le> 1"
proof (cases "n = 1")
  case True
  with assms show ?thesis by (simp add: linspace_def)
next
  case False
  with assms obtain i where i: "i < n" and t: "t = real i / real (n - 1)"
    by (auto simp: linspace_def)
  have "real i \<le> real (n - 1)" using i by simp
  moreover have "0 < real (n - 1)" using i False by simp
  ultimately show ?thesis using t by simp
qed

lemma crash_linspace_sorted:
  "sorted_wrt (<) (map get_crash_schedule (linspace 0 1 n))"
proof -
  have "sorted_wrt (\<lambda>s t. get_crash_schedule s < get_crash_schedule t) (linspace 0 1 n)"
  proof (rule sorted_wrt_mono_rel [OF _ linspace_unit_sorted])
    fix s t
    assume "s \<in> set (linspace 0 1 n)" "t \<in> set (linspace 0 1 n)" "s < t"
    then show "get_crash_schedule s < get_crash_schedule t"
      using linspace_unit_range [of s n] linspace_unit_range [of t n]
      by (intro crash_strict_mono) auto
  qed
  then show ?thesis by (simp add: sorted_wrt_map)
qed

lemma style_step_list_sorted: "sorted_wrt (<) (style_step_list steps noise_level)"
  unfolding style_step_list_def by (intro sorted_wrt_filter crash_linspace_sorted)

lemma sorted_wrt_tl: "sorted_wrt P xs \<Longrightarrow> sorted_wrt P (tl xs)"
  by (cases xs) simp_all

lemma flipped_steps:
  assumes "2 \<le> length sl" "sorted_wrt (<) sl"
  shows "butlast (rev sl) \<noteq> [] \<and> sorted_wrt (>) (butlast (rev sl)) \<and>
         hd (butlast (rev sl)) = last sl"
proof -
  from assms(1) have ne: "tl sl \<noteq> []"
    by (cases sl; cases "tl sl") auto
  have "sorted_wrt (<) (tl sl)" using assms(2) by (rule sorted_wrt_tl)
  then have "sorted_wrt (>) (rev (tl sl))" by (simp add: sorted_wrt_rev)
  moreover have "hd (rev (tl sl)) = last sl"
    using ne by (simp add: hd_rev last_tl)
  ultimately show ?thesis using ne by simp
qed

text \<open>
  When at least two entries of the schedule lie strictly below \<open>noise_level\<close>, the timesteps
  that \<open>do_style_transfer\<close> hands to the stepping loop are non-empty and strictly decreasing,
  and their first entry is \<open>step_list[-1]\<close>, the timestep whose \<open>alpha\<close> and \<open>sigma\<close> mix the
  input audio with the noise. The stepping loop is instantiated by the function that returns
  the start tensor and the timesteps it receives.
\<close>

lemma style_transfer_steps_exact:
  assumes "2 \<le> length (style_step_list steps noise_level)"
  shows "\<exists>x0 ts. do_style_transfer (\<lambda>m x ts e r. (x, ts)) model randn_like audio_sample
                    steps noise_level eta g = Inr (x0, ts) \<and>
           ts \<noteq> [] \<and> sorted_wrt (>) ts \<and>
           hd ts = last (style_step_list steps noise_level) \<and>
           x0 = tadd (tscale audio_sample (fst (t_to_alpha_sigma (hd ts))))
                     (tscale (fst (randn_like g audio_sample)) (snd (t_to_alpha_sigma (hd ts))))"
proof -
  let ?sl = "style_step_list steps noise_level"
  let ?ts = "butlast (rev ?sl)"
  have fl: "?ts \<noteq> []" "sorted_wrt (>) ?ts" "hd ?ts = last ?sl"
    using flipped_steps [OF assms style_step_list_sorted] by blast+
  have ne: "?sl \<noteq> []" using assms by auto
  have "\<not> steps + 1 < 0"
  proof
    assume "steps + 1 < 0"
    then have "?sl = []" by (simp add: style_step_list_def linspace_def)
    with ne show False by simp
  qed
  then have "do_style_transfer (\<lambda>m x ts e r. (x, ts)) model randn_like audio_sample
               steps noise_level eta g
             = Inr (tadd (tscale audio_sample (fst (t_to_alpha_sigma (last ?sl))))
                      (tscale (fst (randn_like g audio_sample))
                         (snd (t_to_alpha_sigma (last ?sl)))), ?ts)"
    using ne by (simp add: do_style_transfer_def Let_def split: prod.splits)
  with fl show ?thesis by simp
qed

text \<open>With three steps and \<open>noise_level = 1\<close> two timesteps are handed over.\<close>

lemma style_step_list_three:
  "style_step_list 3 1 = [0, get_crash_schedule (1 / 3), get_crash_schedule (2 / 3)]"
proof -
  have "[0..<4] = [0, 1, 2, 3]" by code_simp
  then have "linspace 0 1 (nat (3 + 1)) = [0, 1 / 3, 2 / 3, 1]" by (simp add: linspace_def)
  moreover have "get_crash_schedule (1 / 3) < get_crash_schedule 1"
    by (intro crash_strict_mono) simp_all
  moreover have "get_crash_schedule (2 / 3) < get_crash_schedule 1"
    by (intro crash_strict_mono) simp_all
  ultimately show ?thesis
    by (simp add: style_step_list_def crash_at_zero crash_at_one)
qed

lemma style_transfer_three_steps:
  "butlast (rev (style_step_list 3 1)) = [get_crash_schedule (2 / 3), get_crash_schedule (1 / 3)] \<and>
   get_crash_schedule (1 / 3) < get_crash_schedule (2 / 3)"
proof -
  have "get_crash_schedule (1 / 3) < get_crash_schedule (2 / 3)"
    by (intro crash_strict_mono) simp_all
  then show ?thesis by (simp add: style_step_list_three)
qed

end
